theory Spec2Isabelle
  imports
    Complex_Main
    "HOL-Library.AList"
    "HOL-Library.Sublist"
    "HOL-Library.Multiset"
    "HOL-Library.Char_ord"
    "HOL-Library.List_Lexorder"
    "HOL-Library.Product_Lexorder"
begin

section \<open>The record set\<close>

text \<open>
  \<^verbatim>\<open>Streamlit.py\<close> is one script over a pandas data frame read from \<^verbatim>\<open>data.csv\<close>.
  A line of the frame is a record of optional cells: pandas stores an absent cell as
  NaN, which is \<open>None\<close> here. Text columns hold strings, measure columns hold numbers.
  Numbers are exact reals: rounding of binary floating point is outside this model.
\<close>

record txn =
  client_name :: "string option"
  country :: "string option"
  service_lines :: "string option"
  service_offerings :: "string option"
  year_month :: "string option"
  revenue :: "real option"
  total_cost :: "real option"
  gross_profit :: "real option"
  direct_profit :: "real option"

text \<open>
  The script's frames that the filter reads and writes: \<^verbatim>\<open>data\<close> (line 9) and
  \<^verbatim>\<open>filtered_data\<close> (line 32).
\<close>

record session =
  data :: "txn list"
  filtered_data :: "txn list"

section \<open>The pandas operations the script calls\<close>

text \<open>
  \<^verbatim>\<open>Series.isin(values)\<close>: membership cell by cell. The value lists come from
  \<^verbatim>\<open>dropna().unique()\<close> (lines 18 and 28), so they hold no NaN and a NaN cell is in none.
\<close>

fun isin :: "'a option \<Rightarrow> 'a list \<Rightarrow> bool" where
  "isin None vs = False"
| "isin (Some v) vs = (v \<in> set vs)"

text \<open>\<^verbatim>\<open>Series >= scalar\<close>: a comparison with NaN is false.\<close>

fun ge_scalar :: "real option \<Rightarrow> real \<Rightarrow> bool" where
  "ge_scalar None m = False"
| "ge_scalar (Some v) m = (m \<le> v)"

section \<open>Filter (lines 32 to 34)\<close>

text \<open>
  \<^verbatim>\<open>data[(~data['Country'].isin(selected_countries)) & (data['Revenue'] >= min_revenue)
       & (data['[Year-Month]'].isin(selected_dates))]\<close>
  Indexing by a boolean mask builds a new frame from the lines whose mask is true, in
  their order.
\<close>

definition row_mask :: "string list \<Rightarrow> real \<Rightarrow> string list \<Rightarrow> txn \<Rightarrow> bool" where
  "row_mask selected_countries min_revenue selected_dates r =
     (\<not> isin (country r) selected_countries \<and>
      ge_scalar (revenue r) min_revenue \<and>
      isin (year_month r) selected_dates)"

definition filter_rows :: "string list \<Rightarrow> real \<Rightarrow> string list \<Rightarrow> txn list \<Rightarrow> txn list" where
  "filter_rows selected_countries min_revenue selected_dates rows =
     filter (row_mask selected_countries min_revenue selected_dates) rows"

definition run_filter :: "string list \<Rightarrow> real \<Rightarrow> string list \<Rightarrow> session \<Rightarrow> session" where
  "run_filter selected_countries min_revenue selected_dates s =
     s\<lparr>filtered_data := filter_rows selected_countries min_revenue selected_dates (data s)\<rparr>"

text \<open>What the specification's sentence says a passing record is.\<close>

definition spec_passes :: "string list \<Rightarrow> real \<Rightarrow> string list \<Rightarrow> txn \<Rightarrow> bool" where
  "spec_passes excluded_countries min_revenue allowed_periods r =
     ((case country r of None \<Rightarrow> True | Some c \<Rightarrow> c \<notin> set excluded_countries) \<and>
      (case revenue r of None \<Rightarrow> False | Some v \<Rightarrow> v \<ge> min_revenue) \<and>
      (case year_month r of None \<Rightarrow> False | Some p \<Rightarrow> p \<in> set allowed_periods))"

section \<open>Labels of periods\<close>

text \<open>
  The labels of the data have the form \<^verbatim>\<open>YYYY-MM\<close>, as in \<^verbatim>\<open>'2024-01'\<close>: four digits, a
  dash, and the two digits of a month from 01 to 12. On such a label \<^verbatim>\<open>pd.to_datetime\<close>
  gives the first day of that month.
\<close>

definition digit_val :: "char \<Rightarrow> nat option" where
  "digit_val c =
     (if CHR ''0'' \<le> c \<and> c \<le> CHR ''9'' then Some (of_char c - of_char (CHR ''0'')) else None)"

fun digits_val :: "string \<Rightarrow> nat option" where
  "digits_val [] = Some 0"
| "digits_val (c # cs) =
     (case (digit_val c, digits_val cs) of
        (Some d, Some n) \<Rightarrow> Some (d * 10 ^ length cs + n)
      | _ \<Rightarrow> None)"

definition parse_year_month :: "string \<Rightarrow> (nat \<times> nat) option" where
  "parse_year_month s =
     (if length s = 7 \<and> s ! 4 = CHR ''-'' then
        (case (digits_val (take 4 s), digits_val (drop 5 s)) of
           (Some y, Some m) \<Rightarrow> if 1 \<le> m \<and> m \<le> 12 then Some (y, m) else None
         | _ \<Rightarrow> None)
      else None)"

section \<open>Quarter of a record (line 44)\<close>

text \<open>
  \<^verbatim>\<open>filtered_data['Quarter'] = pd.to_datetime(filtered_data['[Year-Month]']).dt.to_period('Q')\<close>
  No format is given, so \<^verbatim>\<open>pd.to_datetime\<close> reads every form of date it knows, not only
  year-month labels. A reading is the year and the month of the time stamp, or \<open>None\<close>
  where pandas raises. Three forms that it reads are written out: a year-month label
  \<^verbatim>\<open>YYYY-MM\<close>, a full date \<^verbatim>\<open>YYYY-MM-DD\<close> and a quarter label \<^verbatim>\<open>YYYYQq\<close> (the first month of
  that quarter). They are taken for the years 1678 to 2261, which lie inside the range of
  a time stamp, and for the days 01 to 28, which every month has. The reading of any
  other string belongs to pandas and is the parameter \<open>other\<close>.
\<close>

type_synonym period = "nat \<times> nat"

datatype error = MalformedPeriod | KeyError









text \<open>
  The column assignment of line 44: the labels are read one by one, as pandas reads a
  column whose labels share one form; a NaN label becomes NaT and raises nothing, and
  one unreadable label fails the whole assignment.
\<close>

record qrow =
  line :: txn
  Quarter :: "period option"


text \<open>
  The printed label of a quarter period, as in \<^verbatim>\<open>'2023Q4'\<close>: the year in at least four
  digits, the letter Q and the quarter.
\<close>

fun decimal :: "nat \<Rightarrow> string" where
  "decimal n =
     (if n < 10 then [''0123456789'' ! n]
      else decimal (n div 10) @ [''0123456789'' ! (n mod 10)])"

declare decimal.simps [simp del]



section \<open>Grouped sums\<close>

text \<open>
  \<^verbatim>\<open>groupby(key)[col].sum()\<close> with the defaults \<^verbatim>\<open>sort=True\<close>, \<^verbatim>\<open>dropna=True\<close>: one line
  per distinct key in ascending key order, lines with a NaN key left out, and each sum
  skipping NaN cells (an all-NaN group sums to 0).
\<close>

definition nansum :: "real option list \<Rightarrow> real" where
  "nansum vs = sum_list (map (\<lambda>v. case v of None \<Rightarrow> 0 | Some x \<Rightarrow> x) vs)"

definition group_keys :: "('r \<Rightarrow> 'k::linorder option) \<Rightarrow> 'r list \<Rightarrow> 'k list" where
  "group_keys key rows = sort (remdups (List.map_filter key rows))"

definition groupby_sum ::
  "('r \<Rightarrow> 'k::linorder option) \<Rightarrow> ('r \<Rightarrow> real option) \<Rightarrow> 'r list \<Rightarrow> ('k \<times> real) list" where
  "groupby_sum key col rows =
     map (\<lambda>k. (k, nansum (map col (filter (\<lambda>r. key r = Some k) rows)))) (group_keys key rows)"

text \<open>Grouping by two columns: a line belongs to a group when both keys are present.\<close>

definition pair_key :: "('r \<Rightarrow> 'a option) \<Rightarrow> ('r \<Rightarrow> 'b option) \<Rightarrow> 'r \<Rightarrow> ('a \<times> 'b) option" where
  "pair_key f g r =
     (case f r of
        None \<Rightarrow> None
      | Some a \<Rightarrow> (case g r of None \<Rightarrow> None | Some b \<Rightarrow> Some (a, b)))"

section \<open>Pivot frames\<close>

text \<open>
  A frame with an index and named numeric columns: the column labels in order, and one
  line per index key holding a cell for each column. A column of the quarter tables is
  named by a quarter (\<^verbatim>\<open>'2023Q4'\<close>, \<^verbatim>\<open>'2024Q1'\<close>) or is \<^verbatim>\<open>'Change'\<close>.
\<close>

datatype label = Q period | Change

record ('k, 'c) frame =
  columns :: "'c list"
  rows :: "('k \<times> ('c \<times> real option) list) list"

definition cell :: "'c \<Rightarrow> ('c \<times> real option) list \<Rightarrow> real option" where
  "cell c cells = (case map_of cells c of None \<Rightarrow> None | Some v \<Rightarrow> v)"

text \<open>
  \<^verbatim>\<open>frame[c] = series\<close>. A frame without lines takes the index of a non-empty series, its
  earlier columns becoming NaN; otherwise the series is aligned to the frame's index:
  keys the series lacks give NaN, keys the frame lacks are dropped. An existing column
  is replaced in place, a new one is appended.
\<close>

definition set_column :: "'c \<Rightarrow> ('k \<times> real) list \<Rightarrow> ('k, 'c) frame \<Rightarrow> ('k, 'c) frame" where
  "set_column c series F =
     (let base =
            (if rows F = [] \<and> series \<noteq> []
             then map (\<lambda>(k, v). (k, map (\<lambda>c'. (c', None)) (columns F))) series
             else rows F)
      in \<lparr>columns = (if c \<in> set (columns F) then columns F else columns F @ [c]),
          rows = map (\<lambda>(k, cells). (k, AList.update c (map_of series k) cells)) base\<rparr>)"

text \<open>\<^verbatim>\<open>frame.fillna(v)\<close>\<close>

definition fillna :: "real \<Rightarrow> ('k, 'c) frame \<Rightarrow> ('k, 'c) frame" where
  "fillna v F =
     F\<lparr>rows := map (\<lambda>(k, cells).
                  (k, map (\<lambda>(c, x). (c, case x of None \<Rightarrow> Some v | Some y \<Rightarrow> Some y)) cells))
                (rows F)\<rparr>"

text \<open>
  \<^verbatim>\<open>series.unstack(fill_value=v)\<close> of a sum grouped by two keys: the first key becomes the
  index, the observed values of the second key become the columns, both ascending, and a
  pair with no group gets \<open>v\<close>.
\<close>

definition unstack ::
  "real \<Rightarrow> (('k::linorder \<times> 'c::linorder) \<times> real) list \<Rightarrow> ('k, 'c) frame" where
  "unstack fill_value series =
     (let cs = sort (remdups (map (snd \<circ> fst) series)) in
      \<lparr>columns = cs,
       rows = map (\<lambda>k. (k, map (\<lambda>c. (c, Some (case map_of series (k, c) of
                                                None \<Rightarrow> fill_value
                                              | Some v \<Rightarrow> v))) cs))
                  (sort (remdups (map (fst \<circ> fst) series)))\<rparr>)"

text \<open>
  \<^verbatim>\<open>frame.reindex(columns=quarters)\<close>, no fill value given: the columns become the listed
  quarters, and a listed quarter that is not a column of the frame is a column of NaN.
  The columns of the unstacked frame are periods and the listed labels are strings;
  pandas reads each listed string as the quarter period it names when it looks it up.
\<close>

definition reindex_columns :: "period list \<Rightarrow> ('k, period) frame \<Rightarrow> ('k, label) frame" where
  "reindex_columns qs F =
     \<lparr>columns = map Q qs,
      rows = map (\<lambda>(k, cells). (k, map (\<lambda>q. (Q q, cell q cells)) qs)) (rows F)\<rparr>"

text \<open>
  \<^verbatim>\<open>frame['Change'] = frame[later] - frame[earlier]\<close>: a missing column raises KeyError,
  and a difference with a NaN operand is NaN.
\<close>

fun minus_cell :: "real option \<Rightarrow> real option \<Rightarrow> real option" where
  "minus_cell (Some a) (Some b) = Some (a - b)"
| "minus_cell _ _ = None"

definition with_Change :: "period \<Rightarrow> period \<Rightarrow> ('k, label) frame \<Rightarrow> error + ('k, label) frame" where
  "with_Change earlier later F =
     (if Q later \<in> set (columns F) \<and> Q earlier \<in> set (columns F) then
        Inr \<lparr>columns = (if Change \<in> set (columns F) then columns F else columns F @ [Change]),
             rows = map (\<lambda>(k, cells).
                      (k, AList.update Change
                            (minus_cell (cell (Q later) cells) (cell (Q earlier) cells)) cells))
                    (rows F)\<rparr>
      else Inl KeyError)"

section \<open>Lost clients (lines 45 to 54 and 82)\<close>

definition quarters :: "period list" where
  "quarters = [(2023, 4), (2024, 1)]"

text \<open>
  The loop of lines 48 to 50, over a list of quarters: the sum of revenue per client
  among the lines of the quarter, stored as that quarter's column. The comparison
  \<^verbatim>\<open>filtered_data['Quarter'] == quarter\<close> reads the string as the quarter period it names;
  it is false on NaT.
\<close>

definition quarter_data :: "period \<Rightarrow> qrow list \<Rightarrow> (string \<times> real) list" where
  "quarter_data quarter fd =
     groupby_sum (client_name \<circ> line) (revenue \<circ> line) (filter (\<lambda>r. Quarter r = Some quarter) fd)"

definition client_revenue_loop :: "period list \<Rightarrow> qrow list \<Rightarrow> (string, label) frame" where
  "client_revenue_loop qs fd =
     foldl (\<lambda>F quarter. set_column (Q quarter) (quarter_data quarter fd) F)
       \<lparr>columns = [], rows = []\<rparr> qs"

text \<open>Lines 52 and 53, for an earlier and a later quarter.\<close>

definition client_revenue :: "period \<Rightarrow> period \<Rightarrow> qrow list \<Rightarrow> error + (string, label) frame" where
  "client_revenue earlier later fd =
     with_Change earlier later (fillna 0 (client_revenue_loop [earlier, later] fd))"

text \<open>
  Line 54: \<^verbatim>\<open>client_revenue[client_revenue['2024Q1'] == 0].reset_index()\<close>. The inner
  comparison is the classification: a boolean series on the frame's index, here every
  line of the frame with its boolean, true when the later-quarter cell equals 0. The
  outer indexing is the selection of the lines whose boolean is true.
\<close>

definition classify_lost ::
  "period \<Rightarrow> ('k, label) frame \<Rightarrow> error + (('k \<times> (label \<times> real option) list) \<times> bool) list" where
  "classify_lost later F =
     (if Q later \<in> set (columns F)
      then Inr (map (\<lambda>row. (row, cell (Q later) (snd row) = Some 0)) (rows F))
      else Inl KeyError)"

definition lost_rows :: "period \<Rightarrow> ('k, label) frame \<Rightarrow> error + ('k \<times> (label \<times> real option) list) list" where
  "lost_rows later F =
     (case classify_lost later F of
        Inl e \<Rightarrow> Inl e
      | Inr tagged \<Rightarrow> Inr (map fst (filter snd tagged)))"

definition lost_clients ::
  "period \<Rightarrow> period \<Rightarrow> qrow list \<Rightarrow> error + (string \<times> (label \<times> real option) list) list" where
  "lost_clients earlier later fd =
     (case client_revenue earlier later fd of
        Inl e \<Rightarrow> Inl e
      | Inr F \<Rightarrow> lost_rows later F)"

text \<open>
  \<^verbatim>\<open>frame.nsmallest(n, column)\<close> with the default \<^verbatim>\<open>keep='first'\<close>, as pandas documents it:
  the first \<open>n\<close> lines in ascending order of the column, lines with equal values in their
  original order, lines with NaN after all others.
\<close>

definition nsmallest :: "nat \<Rightarrow> ('r \<Rightarrow> real option) \<Rightarrow> 'r list \<Rightarrow> 'r list" where
  "nsmallest n col rs =
     take n (map snd (sort_key fst (List.map_filter (\<lambda>r. map_option (\<lambda>v. (v, r)) (col r)) rs))
             @ filter (\<lambda>r. col r = None) rs)"

definition top_lost_clients ::
  "period \<Rightarrow> period \<Rightarrow> qrow list \<Rightarrow> error + (string \<times> (label \<times> real option) list) list" where
  "top_lost_clients earlier later fd =
     (case lost_clients earlier later fd of
        Inl e \<Rightarrow> Inl e
      | Inr ls \<Rightarrow> Inr (nsmallest 10 (\<lambda>(k, cells). cell Change cells) ls))"

section \<open>Service lines by quarter (lines 97 to 99)\<close>

text \<open>
  \<^verbatim>\<open>filtered_data.groupby(['Service Lines', 'Quarter'])['Revenue'].sum().unstack(fill_value=0)\<close>,
  then \<^verbatim>\<open>reindex(columns=quarters)\<close> and the \<^verbatim>\<open>'Change'\<close> column. The sort of line 100
  permutes the lines and changes no cell; it is not part of this definition.
\<close>

definition service_line_quarterly ::
  "period \<Rightarrow> period \<Rightarrow> qrow list \<Rightarrow> error + (string, label) frame" where
  "service_line_quarterly earlier later fd =
     with_Change earlier later
       (reindex_columns [earlier, later]
          (unstack 0 (groupby_sum (pair_key (service_lines \<circ> line) Quarter) (revenue \<circ> line) fd)))"

section \<open>Service offerings (lines 137 to 142)\<close>

record offering_sums =
  Revenue :: real
  Total_Cost :: real
  Gross_Profit :: real
  Direct_Profit :: real

definition service_offerings_data :: "qrow list \<Rightarrow> (string \<times> offering_sums) list" where
  "service_offerings_data fd =
     map (\<lambda>k. let g = filter (\<lambda>r. service_offerings (line r) = Some k) fd in
            (k, \<lparr>Revenue = nansum (map (revenue \<circ> line) g),
                 Total_Cost = nansum (map (total_cost \<circ> line) g),
                 Gross_Profit = nansum (map (gross_profit \<circ> line) g),
                 Direct_Profit = nansum (map (direct_profit \<circ> line) g)\<rparr>))
         (group_keys (service_offerings \<circ> line) fd)"

section \<open>Monthly revenue and its rolling mean (lines 258 and 259)\<close>

definition monthly_revenue :: "qrow list \<Rightarrow> (string \<times> real) list" where
  "monthly_revenue fd = groupby_sum (year_month \<circ> line) (revenue \<circ> line) fd"

text \<open>
  \<^verbatim>\<open>series.rolling(window=w).mean()\<close>: \<^verbatim>\<open>min_periods\<close> defaults to the window, so the mean at
  position \<open>i\<close> is NaN unless the window of the last \<open>w\<close> cells up to \<open>i\<close> lies in the series
  and holds no NaN.
\<close>

definition rolling_mean :: "nat \<Rightarrow> real option list \<Rightarrow> real option list" where
  "rolling_mean w xs =
     map (\<lambda>i. if w = 0 \<or> i + 1 < w then None
              else (case those (take w (drop (i + 1 - w) xs)) of
                      None \<Rightarrow> None
                    | Some vs \<Rightarrow> Some (sum_list vs / real w)))
         [0..<length xs]"

definition views_history :: "qrow list \<Rightarrow> real option list" where
  "views_history fd = rolling_mean 3 (map (Some \<circ> snd) (monthly_revenue fd))"

section \<open>The order of first occurrence\<close>

text \<open>
  What the specification calls first-seen order: the distinct elements of a list, each
  at the place of its first occurrence.
\<close>

definition first_seen :: "'a list \<Rightarrow> 'a list" where
  "first_seen ks = rev (remdups (rev ks))"

section \<open>Chronological order of labels\<close>

text \<open>
  A label is before another when both have the form \<^verbatim>\<open>YYYY-MM\<close> and its year and month
  come first.
\<close>

definition chronologically_before :: "string \<Rightarrow> string \<Rightarrow> bool" where
  "chronologically_before a b =
     (case (parse_year_month a, parse_year_month b) of
        (Some (y, m), Some (y', m')) \<Rightarrow> y < y' \<or> (y = y' \<and> m < m')
      | _ \<Rightarrow> False)"

section \<open>Recomputing a quarter's revenue from the filtered records\<close>

text \<open>
  The check the specification asks for: the revenue of one client in one quarter, summed
  directly over the filtered records.
\<close>

definition recomputed_revenue :: "qrow list \<Rightarrow> string \<Rightarrow> period \<Rightarrow> real" where
  "recomputed_revenue fd k q =
     nansum (map (revenue \<circ> line)
       (filter (\<lambda>r. Quarter r = Some q \<and> client_name (line r) = Some k) fd))"

definition recomputed_line_revenue :: "qrow list \<Rightarrow> string \<Rightarrow> period \<Rightarrow> real" where
  "recomputed_line_revenue fd k q =
     nansum (map (revenue \<circ> line)
       (filter (\<lambda>r. Quarter r = Some q \<and> service_lines (line r) = Some k) fd))"

section \<open>Sample records\<close>

text \<open>
  A line with every text cell and the revenue present and the other measures at 0, and
  the same line with its quarter, for the concrete instances below.
\<close>

definition sale :: "string \<Rightarrow> string \<Rightarrow> string \<Rightarrow> string \<Rightarrow> real \<Rightarrow> txn" where
  "sale client ctry sline ym amount =
     \<lparr>client_name = Some client, country = Some ctry, service_lines = Some sline,
      service_offerings = Some sline, year_month = Some ym, revenue = Some amount,
      total_cost = Some 0, gross_profit = Some 0, direct_profit = Some 0\<rparr>"

definition qsale :: "string \<Rightarrow> string \<Rightarrow> string \<Rightarrow> period \<Rightarrow> real \<Rightarrow> qrow" where
  "qsale client sline ym q amount =
     \<lparr>line = sale client ''MX'' sline ym amount, Quarter = Some q\<rparr>"


section \<open>Facts about the filter\<close>

lemma row_mask_passes: "row_mask ex m al r = spec_passes ex m al r"
  by (cases "country r"; cases "revenue r"; cases "year_month r")
     (simp_all add: row_mask_def spec_passes_def)

text \<open>
  Claim C4. The filter returns exactly the records that pass (country not excluded,
  revenue at least the minimum, period allowed), as a subsequence of the input: nothing
  is duplicated or reordered, the record store \<^verbatim>\<open>data\<close> is left as it was, an empty
  exclusion list excludes nothing, and an empty list of allowed periods gives the empty
  result.
\<close>

theorem filter_exact_subsequence:
  "filtered_data (run_filter ex m al s) = filter (spec_passes ex m al) (data s)
   \<and> subseq (filtered_data (run_filter ex m al s)) (data s)
   \<and> mset (filtered_data (run_filter ex m al s)) \<subseteq># mset (data s)
   \<and> (distinct (data s) \<longrightarrow> distinct (filtered_data (run_filter ex m al s)))
   \<and> data (run_filter ex m al s) = data s
   \<and> filtered_data (run_filter [] m al s)
       = filter (\<lambda>r. ge_scalar (revenue r) m \<and> isin (year_month r) al) (data s)
   \<and> filtered_data (run_filter ex m [] s) = []"
proof -
  have eq: "filter_rows ex m al (data s) = filter (spec_passes ex m al) (data s)"
    by (simp add: filter_rows_def row_mask_passes [abs_def])
  have "row_mask [] m al = (\<lambda>r. ge_scalar (revenue r) m \<and> isin (year_month r) al)"
    by (rule ext, case_tac "country r") (simp_all add: row_mask_def)
  then have e1: "filter_rows [] m al (data s)
      = filter (\<lambda>r. ge_scalar (revenue r) m \<and> isin (year_month r) al) (data s)"
    by (simp add: filter_rows_def)
  have e2: "filter_rows ex m [] (data s) = []"
  proof -
    have "\<And>r. \<not> row_mask ex m [] r"
      by (case_tac "year_month r") (simp_all add: row_mask_def)
    then show ?thesis by (simp add: filter_rows_def)
  qed
  show ?thesis
    by (simp add: run_filter_def eq e1 e2)
qed

theorem filter_exact_subsequence_witness:
  "filtered_data (run_filter [''FR''] 10 [''2024-02'', ''2023-11'']
      \<lparr>data = [sale ''X'' ''FR'' ''a'' ''2023-11'' 100, sale ''Y'' ''DE'' ''b'' ''2024-01'' 50,
               sale ''Z'' ''DE'' ''b'' ''2024-02'' 5, sale ''W'' ''DE'' ''a'' ''2024-02'' 10],
       filtered_data = []\<rparr>)
     = [sale ''W'' ''DE'' ''a'' ''2024-02'' 10]
   \<and> filter (spec_passes [''FR''] 10 [''2024-02'', ''2023-11''])
        [sale ''X'' ''FR'' ''a'' ''2023-11'' 100, sale ''Y'' ''DE'' ''b'' ''2024-01'' 50,
         sale ''Z'' ''DE'' ''b'' ''2024-02'' 5, sale ''W'' ''DE'' ''a'' ''2024-02'' 10]
     = [sale ''W'' ''DE'' ''a'' ''2024-02'' 10]
   \<and> distinct [sale ''X'' ''FR'' ''a'' ''2023-11'' 100, sale ''Y'' ''DE'' ''b'' ''2024-01'' 50,
               sale ''Z'' ''DE'' ''b'' ''2024-02'' 5, sale ''W'' ''DE'' ''a'' ''2024-02'' 10]"
  using filter_exact_subsequence [of "[''FR'']" 10 "[''2024-02'', ''2023-11'']"
      "\<lparr>data = [sale ''X'' ''FR'' ''a'' ''2023-11'' 100, sale ''Y'' ''DE'' ''b'' ''2024-01'' 50,
               sale ''Z'' ''DE'' ''b'' ''2024-02'' 5, sale ''W'' ''DE'' ''a'' ''2024-02'' 10],
        filtered_data = []\<rparr>"]
  by (simp add: spec_passes_def sale_def)

section \<open>Facts about the rolling mean\<close>

lemma those_map_Some: "those (map Some xs) = Some xs"
  by (induction xs) simp_all

lemma sum_list_window:
  assumes "k + w \<le> length (vs :: real list)"
  shows "sum_list (take w (drop k vs)) = (\<Sum>j = k..<k + w. vs ! j)"
proof -
  have len: "length (take w (drop k vs)) = w" using assms by simp
  have "sum_list (take w (drop k vs)) = (\<Sum>j = 0..<w. take w (drop k vs) ! j)"
    using sum_list_sum_nth [of "take w (drop k vs)"] len by simp
  also have "\<dots> = (\<Sum>j = 0..<w. vs ! (k + j))"
    using assms by (intro sum.cong) simp_all
  also have "\<dots> = (\<Sum>j = k..<k + w. vs ! j)"
    using sum.shift_bounds_nat_ivl [of "\<lambda>j. vs ! j" 0 k w] by (simp add: add.commute)
  finally show ?thesis .
qed

lemma rolling_mean_nth:
  assumes "i < length vs"
  shows "rolling_mean w (map Some vs) ! i =
     (if w = 0 \<or> i + 1 < w then None
      else Some ((\<Sum>j = i + 1 - w..i. vs ! j) / real w))"
proof (cases "w = 0 \<or> i + 1 < w")
  case True
  then show ?thesis using assms by (simp add: rolling_mean_def)
next
  case False
  then have w: "0 < w" "w \<le> i + 1" by auto
  have win: "take w (drop (Suc i - w) (map Some vs)) = map Some (take w (drop (Suc i - w) vs))"
    by (simp add: take_map drop_map)
  have "i + 1 - w + w \<le> length vs" using assms w by simp
  then have "sum_list (take w (drop (i + 1 - w) vs)) = (\<Sum>j = i + 1 - w..<i + 1 - w + w. vs ! j)"
    by (rule sum_list_window)
  also have "{i + 1 - w..<i + 1 - w + w} = {i + 1 - w..i}" using w by auto
  finally have s: "sum_list (take w (drop (Suc i - w) vs)) = (\<Sum>j = Suc i - w..i. vs ! j)"
    by simp
  show ?thesis
    using assms False by (simp add: rolling_mean_def win those_map_Some s)
qed

text \<open>
  Claim C5. For a window \<open>w > 0\<close> and a series of values, the rolling mean has the length
  of the series, is missing at every position before \<open>w - 1\<close>, and from position \<open>w - 1\<close>
  on is the arithmetic mean of the \<open>w\<close> values ending at that position; the series
  10, 20, 30, 40 with window 3 gives missing, missing, 20, 30.
\<close>

theorem rolling_mean_window:
  assumes "0 < w"
  shows "length (rolling_mean w (map Some vs)) = length vs
    \<and> (\<forall>i < length vs. i < w - 1 \<longrightarrow> rolling_mean w (map Some vs) ! i = None)
    \<and> (\<forall>i < length vs. w - 1 \<le> i \<longrightarrow>
          rolling_mean w (map Some vs) ! i = Some ((\<Sum>j = i + 1 - w..i. vs ! j) / real w))
    \<and> rolling_mean 3 (map Some [10, 20, 30, 40]) = [None, None, Some 20, Some 30]"
proof (intro conjI allI impI)
  show "length (rolling_mean w (map Some vs)) = length vs"
    by (simp add: rolling_mean_def)
next
  fix i assume "i < length vs" "i < w - 1"
  then have "i + 1 < w" by arith
  with \<open>i < length vs\<close> show "rolling_mean w (map Some vs) ! i = None"
    by (simp add: rolling_mean_nth)
next
  fix i assume "i < length vs" "w - 1 \<le> i"
  with assms have "\<not> (w = 0 \<or> i + 1 < w)" by arith
  with \<open>i < length vs\<close> show "rolling_mean w (map Some vs) ! i = Some ((\<Sum>j = i + 1 - w..i. vs ! j) / real w)"
    by (simp add: rolling_mean_nth)
next
  show "rolling_mean 3 (map Some [10, 20, 30, 40]) = [None, None, Some 20, Some 30]"
    by (simp add: rolling_mean_def upt_rec)
qed

theorem rolling_mean_window_witness:
  "(0::nat) < 2
   \<and> length (rolling_mean 2 (map Some [4, 6, 11])) = 3
   \<and> rolling_mean 2 (map Some [4, 6, 11]) ! 0 = None
   \<and> rolling_mean 2 (map Some [4, 6, 11]) ! 1 = Some 5
   \<and> rolling_mean 2 (map Some [4, 6, 11]) ! 2 = Some (17 / 2)"
proof -
  have h: "(0::nat) < 2" by simp
  have s1: "{Suc 0..2} = {1, 2::nat}" by auto
  have s0: "{0..Suc 0} = {0, 1::nat}" by auto
  show ?thesis
    using rolling_mean_window [OF h, of "[4, 6, 11]"]
    by (simp add: s0 s1 numeral_2_eq_2 numeral_3_eq_3 All_less_Suc)
qed

section \<open>Facts about the ranking\<close>

lemma insort_key_pairs:
  "insort_key fst (f x, x) (map (\<lambda>r. (f r, r)) ys) = map (\<lambda>r. (f r, r)) (insort_key f x ys)"
  by (induction ys) simp_all

lemma sort_key_pairs:
  "sort_key fst (map (\<lambda>r. (f r, r)) rs) = map (\<lambda>r. (f r, r)) (sort_key f rs)"
  by (induction rs) (simp_all add: insort_key_pairs)

lemma nsmallest_total:
  "nsmallest n (\<lambda>r. Some (f r)) rs = take n (sort_key f rs)"
  by (simp add: nsmallest_def List.map_filter_def sort_key_pairs comp_def)

lemma take_sorted_least:
  assumes "sorted (map f s)" "x \<in> set (take n s)" "y \<in> set (drop n s)"
  shows "f x \<le> f y"
proof -
  have "sorted (map f (take n s) @ map f (drop n s))"
    using assms(1) by (simp flip: map_append)
  then show ?thesis using assms(2,3) by (auto simp: sorted_append)
qed

text \<open>
  The ascending selection of line 82, over a column without NaN: \<^verbatim>\<open>nsmallest\<close> returns the
  \<open>n\<close> lines with the smallest values of the field, in ascending order, and among lines
  with equal values the ones seen first, in their original order. The lines A: -50,
  B: -10, C: 5, D: -50 ranked with \<open>n = 2\<close> give A, then D. The full sorts of lines 100,
  191 and 236 (\<^verbatim>\<open>sort_values\<close> with its default \<^verbatim>\<open>kind='quicksort'\<close>) are not modelled:
  pandas leaves their order of equal values open.
\<close>

lemma nsmallest_stable_selection:
  "length (nsmallest n (\<lambda>r. Some (f r)) rs) = min n (length rs)
   \<and> sorted (map f (nsmallest n (\<lambda>r. Some (f r)) rs))
   \<and> mset (nsmallest n (\<lambda>r. Some (f r)) rs) \<subseteq># mset rs
   \<and> (\<forall>x \<in> set (nsmallest n (\<lambda>r. Some (f r)) rs).
        \<forall>y \<in># mset rs - mset (nsmallest n (\<lambda>r. Some (f r)) rs). f x \<le> f y)
   \<and> (\<forall>v. prefix (filter (\<lambda>r. f r = v) (nsmallest n (\<lambda>r. Some (f r)) rs))
                  (filter (\<lambda>r. f r = v) rs))
   \<and> nsmallest 2 (\<lambda>r. Some (snd r)) [(''A'', - 50), (''B'', - 10), (''C'', 5), (''D'', - 50)]
       = [(''A'', - 50), (''D'', - 50)]"
proof -
  let ?s = "sort_key f rs"
  have split: "mset rs = mset (take n ?s) + mset (drop n ?s)"
    by (metis append_take_drop_id mset_append mset_sort)
  have a: "length (take n ?s) = min n (length rs)" by (simp add: min.commute)
  have b: "sorted (map f (take n ?s))"
    using sorted_sort_key [of f rs] by (simp add: take_map [symmetric] del: take_map)
  have c: "mset (take n ?s) \<subseteq># mset rs" by (simp add: split)
  have d: "\<forall>x \<in> set (take n ?s). \<forall>y \<in># mset rs - mset (take n ?s). f x \<le> f y"
  proof (intro ballI)
    fix x y assume "x \<in> set (take n ?s)" "y \<in># mset rs - mset (take n ?s)"
    moreover have "mset rs - mset (take n ?s) = mset (drop n ?s)" by (simp add: split)
    ultimately show "f x \<le> f y"
      using take_sorted_least [of f ?s x n y] sorted_sort_key [of f rs] by simp
  qed
  have e: "\<forall>v. prefix (filter (\<lambda>r. f r = v) (take n ?s)) (filter (\<lambda>r. f r = v) rs)"
  proof
    fix v
    have "prefix (filter (\<lambda>r. f r = v) (take n ?s)) (filter (\<lambda>r. f r = v) ?s)"
      by (rule filter_mono_prefix) (rule take_is_prefix)
    then show "prefix (filter (\<lambda>r. f r = v) (take n ?s)) (filter (\<lambda>r. f r = v) rs)"
      by (simp add: sort_key_stable)
  qed
  have g: "nsmallest 2 (\<lambda>r. Some (snd r)) [(''A'', - 50), (''B'', - 10), (''C'', 5), (''D'', - 50 :: real)]
       = [(''A'', - 50), (''D'', - 50)]"
    by (simp add: nsmallest_def List.map_filter_def)
  show ?thesis
    unfolding nsmallest_total using a b c d e g [unfolded nsmallest_total] by blast
qed

lemma nsmallest_stable_selection_example:
  "nsmallest 2 (\<lambda>r. Some (snd r)) [(''D'', 7), (''A'', 3 :: real), (''B'', 7), (''C'', 9)]
     = [(''A'', 3), (''D'', 7)]
   \<and> prefix [(''D'', 7 :: real)] [(''D'', 7), (''B'', 7)]
   \<and> sorted [3, 7 :: real]"
  using nsmallest_stable_selection [of 2 snd "[(''D'', 7), (''A'', 3 :: real), (''B'', 7), (''C'', 9)]"]
  by (simp add: nsmallest_def List.map_filter_def)

section \<open>Facts about grouping\<close>

lemma set_map_filter: "set (List.map_filter key rs) = {k. \<exists>r \<in> set rs. key r = Some k}"
  by (induction rs) (auto simp: List.map_filter_simps split: option.splits)

lemma group_keys_set: "set (group_keys key rs) = {k. \<exists>r \<in> set rs. key r = Some k}"
  by (simp add: group_keys_def set_map_filter)

lemma group_keys_strict: "sorted_wrt (<) (group_keys key rs)"
  by (simp add: group_keys_def strict_sorted_iff)

lemma group_keys_same_set:
  assumes "set (List.map_filter key rs') = set (List.map_filter key rs)"
  shows "group_keys key rs' = group_keys key rs"
  using assms by (simp add: group_keys_def flip: sorted_list_of_set_sort_remdups)

lemma group_keys_perm:
  assumes "mset rs' = mset rs"
  shows "group_keys key rs' = group_keys key rs"
proof -
  have "set rs' = set rs" using assms by (rule mset_eq_setD)
  then have "set (List.map_filter key rs') = set (List.map_filter key rs)"
    by (simp add: set_map_filter)
  then show ?thesis by (rule group_keys_same_set)
qed

lemma groupby_sum_keys: "map fst (groupby_sum key col rs) = group_keys key rs"
  by (simp add: groupby_sum_def comp_def)

lemma service_offerings_data_keys:
  "map fst (service_offerings_data fd) = group_keys (service_offerings \<circ> line) fd"
  by (simp add: service_offerings_data_def Let_def comp_def)

lemma map_of_groupby_sum:
  "map_of (groupby_sum key col rs) k =
     (if k \<in> set (group_keys key rs)
      then Some (nansum (map col (filter (\<lambda>r. key r = Some k) rs))) else None)"
  by (simp add: groupby_sum_def map_of_map_restrict restrict_map_def)

text \<open>
  Grouping does not keep the order of first occurrence: with the month 2024-02 (or the
  offering b) first in the input, the grouped output starts with 2024-01 (or a).
\<close>

theorem groupby_first_seen_counterexample:
  "map fst (monthly_revenue
      [qsale ''X'' ''a'' ''2024-02'' (2024, 1) 5, qsale ''Y'' ''a'' ''2024-01'' (2024, 1) 7])
     = [''2024-01'', ''2024-02'']
   \<and> first_seen (List.map_filter (year_month \<circ> line)
      [qsale ''X'' ''a'' ''2024-02'' (2024, 1) 5, qsale ''Y'' ''a'' ''2024-01'' (2024, 1) 7])
     = [''2024-02'', ''2024-01'']
   \<and> map fst (service_offerings_data
      [qsale ''X'' ''b'' ''2024-02'' (2024, 1) 5, qsale ''Y'' ''a'' ''2024-01'' (2024, 1) 7])
     = [''a'', ''b'']
   \<and> first_seen (List.map_filter (service_offerings \<circ> line)
      [qsale ''X'' ''b'' ''2024-02'' (2024, 1) 5, qsale ''Y'' ''a'' ''2024-01'' (2024, 1) 7])
     = [''b'', ''a'']"
  by (simp add: monthly_revenue_def groupby_sum_def group_keys_def List.map_filter_def
      first_seen_def qsale_def sale_def service_offerings_data_def Let_def)

text \<open>
  Claim C8, amended. Which lines the grouped output has, and in which order, does not
  depend on any hash or iteration order: there is one line per group key present in the
  input, the lines are in strictly ascending order of the group key and not in order of
  first occurrence, and two inputs with the same keys present give lines for the same
  keys in the same order. Each line holds the sum over the records of its key.
\<close>

theorem groupby_sorted_keys:
  "sorted_wrt (<) (map fst (groupby_sum key col rs))
   \<and> set (map fst (groupby_sum key col rs)) = {k. \<exists>r \<in> set rs. key r = Some k}
   \<and> (\<forall>k \<in> set (map fst (groupby_sum key col rs)).
        map_of (groupby_sum key col rs) k
          = Some (nansum (map col (filter (\<lambda>r. key r = Some k) rs))))
   \<and> (set (List.map_filter key rs') = set (List.map_filter key rs) \<longrightarrow>
        map fst (groupby_sum key col rs') = map fst (groupby_sum key col rs))
   \<and> sorted_wrt (<) (map fst (service_offerings_data fd))
   \<and> sorted_wrt (<) (map fst (monthly_revenue fd))
   \<and> (mset fd' = mset fd \<longrightarrow>
        map fst (service_offerings_data fd') = map fst (service_offerings_data fd)
        \<and> map fst (monthly_revenue fd') = map fst (monthly_revenue fd))"
proof (intro conjI impI ballI)
  show "sorted_wrt (<) (map fst (groupby_sum key col rs))"
    by (simp only: groupby_sum_keys group_keys_strict)
  show "set (map fst (groupby_sum key col rs)) = {k. \<exists>r \<in> set rs. key r = Some k}"
    by (simp only: groupby_sum_keys group_keys_set)
  show "sorted_wrt (<) (map fst (monthly_revenue fd))"
    by (simp only: monthly_revenue_def groupby_sum_keys group_keys_strict)
  show "sorted_wrt (<) (map fst (service_offerings_data fd))"
    by (simp only: service_offerings_data_keys group_keys_strict)
next
  fix k assume "k \<in> set (map fst (groupby_sum key col rs))"
  then have "k \<in> set (group_keys key rs)" by (simp only: groupby_sum_keys)
  then show "map_of (groupby_sum key col rs) k
      = Some (nansum (map col (filter (\<lambda>r. key r = Some k) rs)))"
    by (simp add: map_of_groupby_sum)
next
  assume "set (List.map_filter key rs') = set (List.map_filter key rs)"
  then have "group_keys key rs' = group_keys key rs" by (rule group_keys_same_set)
  then show "map fst (groupby_sum key col rs') = map fst (groupby_sum key col rs)"
    by (simp only: groupby_sum_keys)
next
  assume "mset fd' = mset fd"
  then have "group_keys (service_offerings \<circ> line) fd' = group_keys (service_offerings \<circ> line) fd"
    by (rule group_keys_perm)
  then show "map fst (service_offerings_data fd') = map fst (service_offerings_data fd)"
    by (simp only: service_offerings_data_keys)
next
  assume "mset fd' = mset fd"
  then have "group_keys (year_month \<circ> line) fd' = group_keys (year_month \<circ> line) fd"
    by (rule group_keys_perm)
  then show "map fst (monthly_revenue fd') = map fst (monthly_revenue fd)"
    by (simp only: monthly_revenue_def groupby_sum_keys)
qed

theorem groupby_sorted_keys_witness:
  "mset [qsale ''Y'' ''a'' ''2024-01'' (2024, 1) 7, qsale ''X'' ''b'' ''2024-02'' (2024, 1) 5]
     = mset [qsale ''X'' ''b'' ''2024-02'' (2024, 1) 5, qsale ''Y'' ''a'' ''2024-01'' (2024, 1) 7]
   \<and> map fst (monthly_revenue
        [qsale ''Y'' ''a'' ''2024-01'' (2024, 1) 7, qsale ''X'' ''b'' ''2024-02'' (2024, 1) 5])
     = map fst (monthly_revenue
        [qsale ''X'' ''b'' ''2024-02'' (2024, 1) 5, qsale ''Y'' ''a'' ''2024-01'' (2024, 1) 7])
   \<and> monthly_revenue [qsale ''X'' ''b'' ''2024-02'' (2024, 1) 5, qsale ''Y'' ''a'' ''2024-01'' (2024, 1) 7]
     = [(''2024-01'', 7), (''2024-02'', 5)]"
proof -
  let ?A = "[qsale ''Y'' ''a'' ''2024-01'' (2024, 1) 7, qsale ''X'' ''b'' ''2024-02'' (2024, 1) 5]"
  let ?B = "[qsale ''X'' ''b'' ''2024-02'' (2024, 1) 5, qsale ''Y'' ''a'' ''2024-01'' (2024, 1) 7]"
  have h: "mset ?A = mset ?B" by (simp add: add_mset_commute)
  have e: "monthly_revenue ?B = [(''2024-01'', 7), (''2024-02'', 5)]"
    by (simp add: monthly_revenue_def groupby_sum_def group_keys_def List.map_filter_def
        qsale_def sale_def nansum_def)
  have "map fst (monthly_revenue ?A) = map fst (monthly_revenue ?B)"
    using groupby_sorted_keys [where fd = ?B and fd' = ?A] h by blast
  with h e show ?thesis by blast
qed

section \<open>Facts about the quarter of a label\<close>








lemma length_decimal_pos: "0 < length (decimal n)"
  by (subst decimal.simps) simp











section \<open>Facts about the order of the monthly series\<close>

lemma digit_val_range: "digit_val c = Some d \<Longrightarrow> d < 10 \<and> of_char c = 48 + d"
  by (auto simp: digit_val_def less_eq_char_def split: if_splits)

lemma digit_val_less:
  assumes "digit_val c = Some d" "digit_val c' = Some d'"
  shows "(c < c') = (d < d')" and "(c = c') = (d = d')"
proof -
  have c: "of_char c = 48 + d" "of_char c' = 48 + d'"
    using assms by (simp_all add: digit_val_range)
  show "(c < c') = (d < d')" by (simp add: less_char_def c)
  have "(c = c') = (of_char c = (of_char c' :: nat))" by simp
  then show "(c = c') = (d = d')" by (simp add: c)
qed

lemma digits_val_bound: "digits_val cs = Some n \<Longrightarrow> n < 10 ^ length cs"
proof (induction cs arbitrary: n)
  case Nil
  then show ?case by simp
next
  case (Cons c cs)
  then obtain d k where d: "digit_val c = Some d" and k: "digits_val cs = Some k"
    and n: "n = d * 10 ^ length cs + k"
    by (auto split: option.splits)
  define P :: nat where "P = 10 ^ length cs"
  have kb: "k < P" using Cons.IH k by (simp add: P_def)
  have "d < 10" using d by (simp add: digit_val_range)
  then have "d + 1 \<le> 10" by simp
  then have "(d + 1) * P \<le> 10 * P" by (rule mult_le_mono1)
  moreover have "d * P + k < (d + 1) * P" using kb by simp
  ultimately have "d * P + k < 10 * P" by (rule less_le_trans [rotated])
  then show ?case using n by (simp add: P_def)
qed

lemma digits_val_order:
  assumes "length cs = length cs'" "digits_val cs = Some n" "digits_val cs' = Some n'"
  shows "(cs < cs') = (n < n') \<and> (cs = cs') = (n = n')"
  using assms
proof (induction cs cs' arbitrary: n n' rule: list_induct2)
  case Nil
  then show ?case by simp
next
  case (Cons c cs c' cs')
  from Cons.prems(1) obtain d k where d: "digit_val c = Some d" and k: "digits_val cs = Some k"
    and n: "n = d * 10 ^ length cs + k"
    by (auto split: option.splits)
  from Cons.prems(2) obtain d' k' where d': "digit_val c' = Some d'"
    and k': "digits_val cs' = Some k'" and n': "n' = d' * 10 ^ length cs' + k'"
    by (auto split: option.splits)
  define P :: nat where "P = 10 ^ length cs"
  have P': "10 ^ length cs' = P" using Cons.hyps by (simp add: P_def)
  have kb: "k < P" "k' < P"
    using digits_val_bound [OF k] digits_val_bound [OF k'] by (simp_all add: P_def P')
  have ih: "(cs < cs') = (k < k')" "(cs = cs') = (k = k')"
    using Cons.IH [OF k k'] by simp_all
  have dl: "(c < c') = (d < d')" "(c = c') = (d = d')"
    using digit_val_less [OF d d'] by simp_all
  have step: "\<And>a b x y :: nat. a < b \<Longrightarrow> x < P \<Longrightarrow> a * P + x < b * P + y"
  proof -
    fix a b x y :: nat assume "a < b" "x < P"
    then have "a + 1 \<le> b" by simp
    then have "(a + 1) * P \<le> b * P" by (rule mult_le_mono1)
    with \<open>x < P\<close> show "a * P + x < b * P + y" by simp
  qed
  have nn: "n = d * P + k" "n' = d' * P + k'" using n n' by (simp_all add: P_def P')
  have lt: "(n < n') = (d < d' \<or> d = d' \<and> k < k')"
  proof (cases d d' rule: linorder_cases)
    case less
    then show ?thesis using step [of d d' k k'] kb nn by simp
  next
    case equal
    then show ?thesis using nn by simp
  next
    case greater
    then have "n' < n" using step [of d' d k' k] kb nn by simp
    with greater show ?thesis by simp
  qed
  have eq: "(n = n') = (d = d' \<and> k = k')"
  proof (cases d d' rule: linorder_cases)
    case less
    then have "n < n'" using step [of d d' k k'] kb nn by simp
    with less show ?thesis by simp
  next
    case equal
    then show ?thesis using nn by simp
  next
    case greater
    then have "n' < n" using step [of d' d k' k] kb nn by simp
    with greater show ?thesis by simp
  qed
  show ?case by (simp add: lt eq ih dl)
qed

lemma append_less_same_length:
  fixes xs xs' ys ys' :: "'a::linorder list"
  assumes "length xs = length xs'"
  shows "(xs @ ys < xs' @ ys') = (xs < xs' \<or> xs = xs' \<and> ys < ys')"
  using assms by (induction xs xs' rule: list_induct2) auto

lemma label_split:
  assumes "length s = 7"
  shows "s = take 4 s @ (s ! 4) # drop 5 s"
proof -
  have "drop 4 s = s ! 4 # drop 5 s"
    using assms Cons_nth_drop_Suc [of 4 s] by simp
  then show ?thesis by (metis append_take_drop_id)
qed

lemma parse_year_month_Some:
  assumes "parse_year_month s = Some (y, m)"
  shows "length s = 7 \<and> s ! 4 = CHR ''-'' \<and> digits_val (take 4 s) = Some y
     \<and> digits_val (drop 5 s) = Some m \<and> 1 \<le> m \<and> m \<le> 12"
  using assms by (auto simp: parse_year_month_def split: if_splits option.splits)

lemma label_order:
  assumes a: "parse_year_month a = Some (y, m)" and b: "parse_year_month b = Some (y', m')"
  shows "(a < b) = (y < y' \<or> y = y' \<and> m < m')"
proof -
  note A = parse_year_month_Some [OF a] and B = parse_year_month_Some [OF b]
  have sa: "a = take 4 a @ CHR ''-'' # drop 5 a" using label_split [of a] A by simp
  have sb: "b = take 4 b @ CHR ''-'' # drop 5 b" using label_split [of b] B by simp
  have len: "length (take 4 a) = length (take 4 b)" "length (drop 5 a) = length (drop 5 b)"
    using A B by simp_all
  have yo: "(take 4 a < take 4 b) = (y < y')" "(take 4 a = take 4 b) = (y = y')"
    using digits_val_order [OF len(1), of y y'] A B by simp_all
  have mo: "(drop 5 a < drop 5 b) = (m < m')"
    using digits_val_order [OF len(2), of m m'] A B by simp
  have "(a < b) = (take 4 a @ CHR ''-'' # drop 5 a < take 4 b @ CHR ''-'' # drop 5 b)"
    using sa sb by simp
  also have "\<dots> = (take 4 a < take 4 b \<or> take 4 a = take 4 b \<and> drop 5 a < drop 5 b)"
    using append_less_same_length [OF len(1)] by simp
  finally show ?thesis by (simp add: yo mo)
qed

lemma label_before:
  assumes "parse_year_month a \<noteq> None" "parse_year_month b \<noteq> None" "a < b"
  shows "chronologically_before a b"
proof -
  from assms obtain y m y' m' where p: "parse_year_month a = Some (y, m)"
    "parse_year_month b = Some (y', m')" by auto
  with assms(3) label_order [OF p] show ?thesis by (simp add: chronologically_before_def)
qed

text \<open>
  Claim C10. When every period label of the filtered records has the form \<^verbatim>\<open>YYYY-MM\<close>,
  the monthly revenue series comes out of the grouping in strictly ascending
  chronological order: the group keys are emitted in ascending string order, which on
  such labels is the order of (year, month). The rolling mean of line 259 is taken over
  that series as it is, with no sort in between.
\<close>

theorem monthly_revenue_chronological:
  assumes "\<forall>r \<in> set fd. \<forall>s. year_month (line r) = Some s \<longrightarrow> parse_year_month s \<noteq> None"
  shows "sorted_wrt chronologically_before (map fst (monthly_revenue fd))
     \<and> sorted_wrt (<) (map fst (monthly_revenue fd))
     \<and> views_history fd = rolling_mean 3 (map (Some \<circ> snd) (monthly_revenue fd))
     \<and> length (views_history fd) = length (monthly_revenue fd)"
proof -
  let ?ks = "map fst (monthly_revenue fd)"
  have ks: "?ks = group_keys (year_month \<circ> line) fd"
    by (simp add: monthly_revenue_def groupby_sum_keys)
  have valid: "parse_year_month k \<noteq> None" if "k \<in> set ?ks" for k
    using that assms unfolding ks group_keys_set by auto
  have s: "sorted_wrt (<) ?ks" unfolding ks by (rule group_keys_strict)
  have "sorted_wrt chronologically_before ?ks"
    using s
  proof (rule sorted_wrt_mono_rel [rotated])
    fix a b assume "a \<in> set ?ks" "b \<in> set ?ks" "a < b"
    then show "chronologically_before a b" using valid label_before by blast
  qed
  moreover have "length (views_history fd) = length (monthly_revenue fd)"
    by (simp add: views_history_def rolling_mean_def)
  ultimately show ?thesis using s by (simp add: views_history_def)
qed

theorem monthly_revenue_chronological_witness:
  "parse_year_month ''2024-02'' = Some (2024, 2)
   \<and> parse_year_month ''2023-12'' = Some (2023, 12)
   \<and> map fst (monthly_revenue
        [qsale ''X'' ''a'' ''2024-02'' (2024, 1) 5, qsale ''Y'' ''a'' ''2023-12'' (2023, 4) 7,
         qsale ''Z'' ''a'' ''2024-02'' (2024, 1) 1])
      = [''2023-12'', ''2024-02'']
   \<and> chronologically_before ''2023-12'' ''2024-02''
   \<and> views_history
        [qsale ''X'' ''a'' ''2024-02'' (2024, 1) 5, qsale ''Y'' ''a'' ''2023-12'' (2023, 4) 7,
         qsale ''Z'' ''a'' ''2024-02'' (2024, 1) 1]
      = [None, None]"
proof -
  let ?fd = "[qsale ''X'' ''a'' ''2024-02'' (2024, 1) 5, qsale ''Y'' ''a'' ''2023-12'' (2023, 4) 7,
         qsale ''Z'' ''a'' ''2024-02'' (2024, 1) 1]"
  have p1: "parse_year_month ''2024-02'' = Some (2024, 2)"
    by (simp add: parse_year_month_def digit_val_def)
  have p2: "parse_year_month ''2023-12'' = Some (2023, 12)"
    by (simp add: parse_year_month_def digit_val_def)
  have h: "\<forall>r \<in> set ?fd. \<forall>s. year_month (line r) = Some s \<longrightarrow> parse_year_month s \<noteq> None"
    by (simp add: qsale_def sale_def p1 p2)
  have m: "monthly_revenue ?fd = [(''2023-12'', 7), (''2024-02'', 6)]"
    by (simp add: monthly_revenue_def groupby_sum_def group_keys_def List.map_filter_def
        qsale_def sale_def nansum_def)
  have v: "rolling_mean 3 [Some 7, Some 6] = [None, None]"
    by (simp add: rolling_mean_def upt_rec)
  have "sorted_wrt chronologically_before (map fst (monthly_revenue ?fd))"
    and "views_history ?fd = rolling_mean 3 (map (Some \<circ> snd) (monthly_revenue ?fd))"
    using monthly_revenue_chronological [OF h] by blast+
  then have "chronologically_before ''2023-12'' ''2024-02''"
    and "views_history ?fd = [None, None]"
    unfolding m using v by simp_all
  with p1 p2 m show ?thesis by simp
qed

section \<open>Facts about the client pivot and the lost clients\<close>

lemma nansum_no_group:
  assumes "k \<notin> set (group_keys key rs)"
  shows "nansum (map col (filter (\<lambda>r. key r = Some k) rs)) = 0"
proof -
  have "filter (\<lambda>r. key r = Some k) rs = []"
    using assms by (auto simp: group_keys_set filter_empty_conv)
  then show ?thesis by (simp add: nansum_def)
qed

lemma quarter_data_cell:
  "(case map_of (quarter_data q fd) k of None \<Rightarrow> Some 0 | Some y \<Rightarrow> Some y)
     = Some (recomputed_revenue fd k q)"
proof -
  have f: "filter (\<lambda>r. (client_name \<circ> line) r = Some k) (filter (\<lambda>r. Quarter r = Some q) fd)
      = filter (\<lambda>r. Quarter r = Some q \<and> client_name (line r) = Some k) fd"
    by (simp add: conj_commute)
  show ?thesis
    using nansum_no_group [of k "client_name \<circ> line" "filter (\<lambda>r. Quarter r = Some q) fd" "revenue \<circ> line"]
    by (simp add: quarter_data_def map_of_groupby_sum recomputed_revenue_def f)
qed

lemma client_revenue_loop_rows:
  assumes "earlier \<noteq> later"
  shows "client_revenue_loop [earlier, later] fd =
     \<lparr>columns = [Q earlier, Q later],
      rows = map (\<lambda>k. (k, [(Q earlier, map_of (quarter_data earlier fd) k),
                           (Q later, map_of (quarter_data later fd) k)]))
               (if quarter_data earlier fd = [] then map fst (quarter_data later fd)
                else map fst (quarter_data earlier fd))\<rparr>"
  using assms
  by (simp add: client_revenue_loop_def set_column_def Let_def case_prod_unfold comp_def)

lemma client_revenue_rows:
  assumes "earlier \<noteq> later"
  shows "client_revenue earlier later fd =
     Inr \<lparr>columns = [Q earlier, Q later, Change],
          rows = map (\<lambda>k. (k, [(Q earlier, Some (recomputed_revenue fd k earlier)),
                               (Q later, Some (recomputed_revenue fd k later)),
                               (Change, Some (recomputed_revenue fd k later
                                              - recomputed_revenue fd k earlier))]))
                   (if quarter_data earlier fd = [] then map fst (quarter_data later fd)
                    else map fst (quarter_data earlier fd))\<rparr>"
  using assms
  by (simp add: client_revenue_def client_revenue_loop_rows fillna_def with_Change_def
      cell_def quarter_data_cell comp_def)

lemma client_revenue_loop_columns:
  "Q earlier \<in> set (columns (client_revenue_loop [earlier, later] fd))
   \<and> Q later \<in> set (columns (client_revenue_loop [earlier, later] fd))"
  by (simp add: client_revenue_loop_def set_column_def Let_def)

lemma client_revenue_succeeds:
  "\<exists>F. client_revenue earlier later fd = Inr F \<and> Q later \<in> set (columns F)"
  using client_revenue_loop_columns [of earlier later fd]
  by (simp add: client_revenue_def with_Change_def fillna_def)

lemma filter_tagged: "map fst (filter snd (map (\<lambda>row. (row, P row)) xs)) = filter P xs"
  by (induction xs) simp_all

lemma lost_rows_filter:
  "lost_rows later F =
     (if Q later \<in> set (columns F)
      then Inr (filter (\<lambda>(k, cells). cell (Q later) cells = Some 0) (rows F))
      else Inl KeyError)"
  by (simp add: lost_rows_def classify_lost_def case_prod_unfold filter_tagged)

text \<open>
  Claim C1. For every pivot with the later-quarter column, the classification returns
  every line of the pivot, in order and none removed, each with a mark, and the mark is
  true exactly when the later-quarter value equals 0, whatever the earlier-quarter
  value: a line with 0 in both quarters is marked. For the client pivot of lines 46 to
  53 the classification never fails, the later-quarter value is the client's revenue of
  that quarter summed over the filtered records, and the Lost Clients table of line 54
  holds the marked lines.
\<close>

theorem classify_lost_marks:
  "(Q later \<in> set (columns G) \<longrightarrow>
      (\<exists>tagged. classify_lost later G = Inr tagged
         \<and> map fst tagged = rows G
         \<and> (\<forall>t \<in> set tagged. snd t = (cell (Q later) (snd (fst t)) = Some 0))
         \<and> (\<forall>t \<in> set tagged. cell (Q later) (snd (fst t)) = Some 0
               \<and> cell (Q earlier) (snd (fst t)) = Some 0 \<longrightarrow> snd t)))
   \<and> (\<exists>F tagged. client_revenue earlier later fd = Inr F
         \<and> classify_lost later F = Inr tagged
         \<and> map fst tagged = rows F
         \<and> (\<forall>t \<in> set tagged. snd t = (cell (Q later) (snd (fst t)) = Some 0))
         \<and> (earlier \<noteq> later \<longrightarrow>
              (\<forall>t \<in> set tagged. snd t = (recomputed_revenue fd (fst (fst t)) later = 0)))
         \<and> lost_clients earlier later fd = Inr (map fst (filter snd tagged)))"
proof (intro conjI impI)
  assume c: "Q later \<in> set (columns G)"
  show "\<exists>tagged. classify_lost later G = Inr tagged
         \<and> map fst tagged = rows G
         \<and> (\<forall>t \<in> set tagged. snd t = (cell (Q later) (snd (fst t)) = Some 0))
         \<and> (\<forall>t \<in> set tagged. cell (Q later) (snd (fst t)) = Some 0
               \<and> cell (Q earlier) (snd (fst t)) = Some 0 \<longrightarrow> snd t)"
    using c by (auto simp: classify_lost_def comp_def)
next
  from client_revenue_succeeds [of earlier later fd]
  obtain F where F: "client_revenue earlier later fd = Inr F" and c: "Q later \<in> set (columns F)"
    by blast
  define tagged where "tagged = map (\<lambda>row. (row, cell (Q later) (snd row) = Some 0)) (rows F)"
  have t: "classify_lost later F = Inr tagged"
    by (simp add: classify_lost_def c tagged_def)
  have m: "map fst tagged = rows F" by (simp add: tagged_def comp_def)
  have z: "\<forall>t \<in> set tagged. snd t = (cell (Q later) (snd (fst t)) = Some 0)"
    by (auto simp: tagged_def)
  have r: "\<forall>t \<in> set tagged. snd t = (recomputed_revenue fd (fst (fst t)) later = 0)"
    if "earlier \<noteq> later"
    using F that by (auto simp: tagged_def client_revenue_rows [OF that] cell_def)
  have l: "lost_clients earlier later fd = Inr (map fst (filter snd tagged))"
    by (simp add: lost_clients_def F lost_rows_def t)
  from F t m z r l
  show "\<exists>F tagged. client_revenue earlier later fd = Inr F
         \<and> classify_lost later F = Inr tagged
         \<and> map fst tagged = rows F
         \<and> (\<forall>t \<in> set tagged. snd t = (cell (Q later) (snd (fst t)) = Some 0))
         \<and> (earlier \<noteq> later \<longrightarrow>
              (\<forall>t \<in> set tagged. snd t = (recomputed_revenue fd (fst (fst t)) later = 0)))
         \<and> lost_clients earlier later fd = Inr (map fst (filter snd tagged))"
    by blast
qed

theorem classify_lost_marks_witness:
  "client_revenue (2023, 4) (2024, 1)
     [qsale ''X'' ''a'' ''2023-11'' (2023, 4) 100, qsale ''X'' ''a'' ''2024-01'' (2024, 1) 0,
      qsale ''Y'' ''b'' ''2023-11'' (2023, 4) 50, qsale ''Y'' ''b'' ''2024-01'' (2024, 1) 80,
      qsale ''Z'' ''b'' ''2023-12'' (2023, 4) 0]
     = Inr \<lparr>columns = [Q (2023, 4), Q (2024, 1), Change],
            rows = [(''X'', [(Q (2023, 4), Some 100), (Q (2024, 1), Some 0), (Change, Some (- 100))]),
                    (''Y'', [(Q (2023, 4), Some 50), (Q (2024, 1), Some 80), (Change, Some 30)]),
                    (''Z'', [(Q (2023, 4), Some 0), (Q (2024, 1), Some 0), (Change, Some 0)])]\<rparr>
   \<and> classify_lost (2024, 1)
       \<lparr>columns = [Q (2023, 4), Q (2024, 1), Change],
        rows = [(''X'', [(Q (2023, 4), Some 100), (Q (2024, 1), Some 0), (Change, Some (- 100))]),
                (''Y'', [(Q (2023, 4), Some 50), (Q (2024, 1), Some 80), (Change, Some 30)]),
                (''Z'', [(Q (2023, 4), Some 0), (Q (2024, 1), Some 0), (Change, Some 0)])]\<rparr>
     = Inr [((''X'', [(Q (2023, 4), Some 100), (Q (2024, 1), Some 0), (Change, Some (- 100))]), True),
            ((''Y'', [(Q (2023, 4), Some 50), (Q (2024, 1), Some 80), (Change, Some 30)]), False),
            ((''Z'', [(Q (2023, 4), Some 0), (Q (2024, 1), Some 0), (Change, Some 0)]), True)]
   \<and> lost_clients (2023, 4) (2024, 1)
     [qsale ''X'' ''a'' ''2023-11'' (2023, 4) 100, qsale ''X'' ''a'' ''2024-01'' (2024, 1) 0,
      qsale ''Y'' ''b'' ''2023-11'' (2023, 4) 50, qsale ''Y'' ''b'' ''2024-01'' (2024, 1) 80,
      qsale ''Z'' ''b'' ''2023-12'' (2023, 4) 0]
     = Inr [(''X'', [(Q (2023, 4), Some 100), (Q (2024, 1), Some 0), (Change, Some (- 100))]),
            (''Z'', [(Q (2023, 4), Some 0), (Q (2024, 1), Some 0), (Change, Some 0)])]"
proof -
  let ?fd = "[qsale ''X'' ''a'' ''2023-11'' (2023, 4) 100, qsale ''X'' ''a'' ''2024-01'' (2024, 1) 0,
      qsale ''Y'' ''b'' ''2023-11'' (2023, 4) 50, qsale ''Y'' ''b'' ''2024-01'' (2024, 1) 80,
      qsale ''Z'' ''b'' ''2023-12'' (2023, 4) 0]"
  let ?F = "\<lparr>columns = [Q (2023, 4), Q (2024, 1), Change],
        rows = [(''X'', [(Q (2023, 4), Some 100), (Q (2024, 1), Some 0), (Change, Some (- 100))]),
                (''Y'', [(Q (2023, 4), Some 50), (Q (2024, 1), Some 80), (Change, Some 30)]),
                (''Z'', [(Q (2023, 4), Some 0), (Q (2024, 1), Some 0), (Change, Some 0)])]\<rparr>"
  have F: "client_revenue (2023, 4) (2024, 1) ?fd = Inr ?F"
    by (simp add: client_revenue_rows recomputed_revenue_def quarter_data_def groupby_sum_def
        group_keys_def List.map_filter_def nansum_def qsale_def sale_def)
  have c: "Q (2024, 1) \<in> set (columns ?F)" by simp
  from classify_lost_marks [of "(2024, 1)" ?F "(2023, 4)" ?fd] c
  obtain tagged where t: "classify_lost (2024, 1) ?F = Inr tagged"
    and m: "map fst tagged = rows ?F"
    by blast
  have t': "classify_lost (2024, 1) ?F
     = Inr [((''X'', [(Q (2023, 4), Some 100), (Q (2024, 1), Some 0), (Change, Some (- 100))]), True),
            ((''Y'', [(Q (2023, 4), Some 50), (Q (2024, 1), Some 80), (Change, Some 30)]), False),
            ((''Z'', [(Q (2023, 4), Some 0), (Q (2024, 1), Some 0), (Change, Some 0)]), True)]"
    by (simp add: classify_lost_def cell_def)
  have l: "lost_clients (2023, 4) (2024, 1) ?fd
     = Inr [(''X'', [(Q (2023, 4), Some 100), (Q (2024, 1), Some 0), (Change, Some (- 100))]),
            (''Z'', [(Q (2023, 4), Some 0), (Q (2024, 1), Some 0), (Change, Some 0)])]"
    unfolding lost_clients_def F by (simp add: lost_rows_filter cell_def)
  from F t' l t m show ?thesis by blast
qed

section \<open>Facts about missing measures\<close>

lemma nansum_present: "nansum (map f xs) = sum_list (List.map_filter f xs)"
  by (induction xs) (simp_all add: nansum_def List.map_filter_simps split: option.splits)

lemma map_of_service_offerings_data:
  assumes "map_of (service_offerings_data fd) k = Some T"
  shows "T = \<lparr>Revenue = nansum (map (revenue \<circ> line)
                    (filter (\<lambda>r. service_offerings (line r) = Some k) fd)),
              Total_Cost = nansum (map (total_cost \<circ> line)
                    (filter (\<lambda>r. service_offerings (line r) = Some k) fd)),
              Gross_Profit = nansum (map (gross_profit \<circ> line)
                    (filter (\<lambda>r. service_offerings (line r) = Some k) fd)),
              Direct_Profit = nansum (map (direct_profit \<circ> line)
                    (filter (\<lambda>r. service_offerings (line r) = Some k) fd))\<rparr>"
  using assms
  by (simp add: service_offerings_data_def Let_def map_of_map_restrict restrict_map_def
      split: if_splits)

text \<open>
  A record whose revenue is missing does not survive the filter, whatever the minimum.
\<close>

theorem missing_revenue_counterexample:
  "filtered_data (run_filter [] 0 [''2024-01'']
      \<lparr>data = [(sale ''X'' ''FR'' ''a'' ''2024-01'' 0)\<lparr>revenue := None\<rparr>],
       filtered_data = []\<rparr>) = []"
  by (simp add: run_filter_def filter_rows_def row_mask_def sale_def)

text \<open>
  Claim C7, amended. A record whose revenue is missing raises no error and is dropped by
  the filter for every minimum, since a comparison with a missing value is false; every
  record that reaches the aggregations has a revenue. A missing value of a summed
  measure of a surviving record (total cost, gross profit, direct profit) is skipped by
  the sum of its group, which is the same as counting it as 0.
\<close>

theorem missing_revenue_dropped:
  "(revenue r = None \<longrightarrow> r \<notin> set (filtered_data (run_filter ex m al s)))
   \<and> (\<forall>r' \<in> set (filtered_data (run_filter ex m al s)). \<exists>v. revenue r' = Some v \<and> m \<le> v)
   \<and> (map_of (service_offerings_data fd) k = Some T \<longrightarrow>
        Total_Cost T = sum_list (List.map_filter (total_cost \<circ> line)
                          (filter (\<lambda>r. service_offerings (line r) = Some k) fd))
        \<and> Gross_Profit T = sum_list (List.map_filter (gross_profit \<circ> line)
                          (filter (\<lambda>r. service_offerings (line r) = Some k) fd))
        \<and> Direct_Profit T = sum_list (List.map_filter (direct_profit \<circ> line)
                          (filter (\<lambda>r. service_offerings (line r) = Some k) fd)))"
proof (intro conjI impI ballI)
  assume "revenue r = None"
  then show "r \<notin> set (filtered_data (run_filter ex m al s))"
    by (simp add: run_filter_def filter_rows_def row_mask_def)
next
  fix r' assume "r' \<in> set (filtered_data (run_filter ex m al s))"
  then have "ge_scalar (revenue r') m"
    by (simp add: run_filter_def filter_rows_def row_mask_def)
  then show "\<exists>v. revenue r' = Some v \<and> m \<le> v"
    by (cases "revenue r'") simp_all
next
  assume T: "map_of (service_offerings_data fd) k = Some T"
  note eq = map_of_service_offerings_data [OF T]
  show "Total_Cost T = sum_list (List.map_filter (total_cost \<circ> line)
                          (filter (\<lambda>r. service_offerings (line r) = Some k) fd))"
    by (subst eq) (simp add: nansum_present)
  show "Gross_Profit T = sum_list (List.map_filter (gross_profit \<circ> line)
                          (filter (\<lambda>r. service_offerings (line r) = Some k) fd))"
    by (subst eq) (simp add: nansum_present)
  show "Direct_Profit T = sum_list (List.map_filter (direct_profit \<circ> line)
                          (filter (\<lambda>r. service_offerings (line r) = Some k) fd))"
    by (subst eq) (simp add: nansum_present)
qed

theorem missing_revenue_dropped_witness:
  "revenue ((sale ''X'' ''FR'' ''a'' ''2024-01'' 0)\<lparr>revenue := None\<rparr>) = None
   \<and> (sale ''X'' ''FR'' ''a'' ''2024-01'' 0)\<lparr>revenue := None\<rparr>
       \<notin> set (filtered_data (run_filter [] (- 5) [''2024-01'']
            \<lparr>data = [(sale ''X'' ''FR'' ''a'' ''2024-01'' 0)\<lparr>revenue := None\<rparr>,
                     sale ''Y'' ''FR'' ''a'' ''2024-01'' 3],
             filtered_data = []\<rparr>))
   \<and> filtered_data (run_filter [] (- 5) [''2024-01'']
            \<lparr>data = [(sale ''X'' ''FR'' ''a'' ''2024-01'' 0)\<lparr>revenue := None\<rparr>,
                     sale ''Y'' ''FR'' ''a'' ''2024-01'' 3],
             filtered_data = []\<rparr>)
       = [sale ''Y'' ''FR'' ''a'' ''2024-01'' 3]
   \<and> map_of (service_offerings_data
        [\<lparr>line = (sale ''X'' ''FR'' ''a'' ''2024-01'' 4)\<lparr>total_cost := None\<rparr>, Quarter = None\<rparr>,
         \<lparr>line = (sale ''Y'' ''FR'' ''a'' ''2024-01'' 3)\<lparr>total_cost := Some 7\<rparr>, Quarter = None\<rparr>])
        ''a''
       = Some \<lparr>Revenue = 7, Total_Cost = 7, Gross_Profit = 0, Direct_Profit = 0\<rparr>"
proof -
  let ?x = "(sale ''X'' ''FR'' ''a'' ''2024-01'' 0)\<lparr>revenue := None\<rparr>"
  let ?s = "\<lparr>data = [?x, sale ''Y'' ''FR'' ''a'' ''2024-01'' 3], filtered_data = []\<rparr>"
  let ?fd = "[\<lparr>line = (sale ''X'' ''FR'' ''a'' ''2024-01'' 4)\<lparr>total_cost := None\<rparr>, Quarter = None\<rparr>,
         \<lparr>line = (sale ''Y'' ''FR'' ''a'' ''2024-01'' 3)\<lparr>total_cost := Some 7\<rparr>, Quarter = None\<rparr>]"
  have a: "revenue ?x = None" by (simp add: sale_def)
  have b: "filtered_data (run_filter [] (- 5) [''2024-01''] ?s) = [sale ''Y'' ''FR'' ''a'' ''2024-01'' 3]"
    by (simp add: run_filter_def filter_rows_def row_mask_def sale_def)
  have c: "map_of (service_offerings_data ?fd) ''a''
       = Some \<lparr>Revenue = 7, Total_Cost = 7, Gross_Profit = 0, Direct_Profit = 0\<rparr>"
    by (simp add: service_offerings_data_def Let_def group_keys_def List.map_filter_def
        nansum_def sale_def)
  have "?x \<notin> set (filtered_data (run_filter [] (- 5) [''2024-01''] ?s))"
    using missing_revenue_dropped [of ?x "[]" "- 5" "[''2024-01'']" ?s] a by blast
  with a b c show ?thesis by blast
qed

section \<open>Facts about the service-line pivot\<close>

lemma pair_key_eq:
  "(pair_key f g r = Some (a, b)) = (f r = Some a \<and> g r = Some b)"
  by (simp add: pair_key_def split: option.splits)

lemma line_group_cell:
  "(case map_of (groupby_sum (pair_key (service_lines \<circ> line) Quarter) (revenue \<circ> line) fd) (k, q) of
      None \<Rightarrow> 0 | Some v \<Rightarrow> v)
   = recomputed_line_revenue fd k q"
proof -
  have f: "filter (\<lambda>r. pair_key (service_lines \<circ> line) Quarter r = Some (k, q)) fd
      = filter (\<lambda>r. Quarter r = Some q \<and> service_lines (line r) = Some k) fd"
    by (simp add: pair_key_eq conj_commute)
  show ?thesis
    using nansum_no_group [of "(k, q)" "pair_key (service_lines \<circ> line) Quarter" fd "revenue \<circ> line"]
    by (simp add: map_of_groupby_sum recomputed_line_revenue_def f)
qed

lemma cell_map:
  "cell q (map (\<lambda>c. (c, h c)) cs) = (if q \<in> set cs then h q else None)"
  by (simp add: cell_def map_of_map_restrict restrict_map_def)

lemma service_line_quarterly_rows:
  assumes "earlier \<noteq> later"
  shows "service_line_quarterly earlier later fd =
     Inr \<lparr>columns = [Q earlier, Q later, Change],
          rows = map (\<lambda>k.
              (k, [(Q earlier,
                      if \<exists>r \<in> set fd. Quarter r = Some earlier \<and> service_lines (line r) \<noteq> None
                      then Some (recomputed_line_revenue fd k earlier) else None),
                   (Q later,
                      if \<exists>r \<in> set fd. Quarter r = Some later \<and> service_lines (line r) \<noteq> None
                      then Some (recomputed_line_revenue fd k later) else None),
                   (Change,
                      if (\<exists>r \<in> set fd. Quarter r = Some earlier \<and> service_lines (line r) \<noteq> None)
                         \<and> (\<exists>r \<in> set fd. Quarter r = Some later \<and> service_lines (line r) \<noteq> None)
                      then Some (recomputed_line_revenue fd k later
                                 - recomputed_line_revenue fd k earlier)
                      else None)]))
            (sort (remdups (map (fst \<circ> fst)
               (groupby_sum (pair_key (service_lines \<circ> line) Quarter) (revenue \<circ> line) fd))))\<rparr>"
proof -
  define S where "S = groupby_sum (pair_key (service_lines \<circ> line) Quarter) (revenue \<circ> line) fd"
  define cs where "cs = sort (remdups (map (snd \<circ> fst) S))"
  define idx where "idx = sort (remdups (map (fst \<circ> fst) S))"
  define oe where "oe = (\<exists>r \<in> set fd. Quarter r = Some earlier \<and> service_lines (line r) \<noteq> None)"
  define ol where "ol = (\<exists>r \<in> set fd. Quarter r = Some later \<and> service_lines (line r) \<noteq> None)"
  define ce where "ce = (\<lambda>k. if oe then Some (recomputed_line_revenue fd k earlier) else None)"
  define cl where "cl = (\<lambda>k. if ol then Some (recomputed_line_revenue fd k later) else None)"
  have keys: "fst ` set S = {(k, q). \<exists>r \<in> set fd. service_lines (line r) = Some k \<and> Quarter r = Some q}"
  proof -
    have "fst ` set S = set (group_keys (pair_key (service_lines \<circ> line) Quarter) fd)"
      unfolding S_def
      using groupby_sum_keys [of "pair_key (service_lines \<circ> line) Quarter" "revenue \<circ> line" fd]
      by (metis set_map)
    also have "\<dots> = {(k, q). \<exists>r \<in> set fd. service_lines (line r) = Some k \<and> Quarter r = Some q}"
      unfolding group_keys_set by (auto simp: pair_key_eq)
    finally show ?thesis .
  qed
  have obs: "(q \<in> set cs)
      = (\<exists>r \<in> set fd. Quarter r = Some q \<and> service_lines (line r) \<noteq> None)" for q
  proof -
    have "set cs = snd ` fst ` set S" by (simp add: cs_def image_image)
    also have "\<dots> = {q. \<exists>r \<in> set fd. Quarter r = Some q \<and> service_lines (line r) \<noteq> None}"
      unfolding keys by force
    finally show ?thesis by simp
  qed
  have U: "unstack 0 S =
      \<lparr>columns = cs,
       rows = map (\<lambda>k. (k, map (\<lambda>c. (c, Some (recomputed_line_revenue fd k c))) cs)) idx\<rparr>"
    unfolding unstack_def Let_def cs_def [symmetric] idx_def [symmetric]
    by (simp add: S_def line_group_cell)
  have R: "reindex_columns [earlier, later] (unstack 0 S) =
      \<lparr>columns = [Q earlier, Q later],
       rows = map (\<lambda>k. (k, [(Q earlier, ce k), (Q later, cl k)])) idx\<rparr>"
    unfolding U by (simp add: reindex_columns_def cell_map obs ce_def cl_def oe_def ol_def comp_def)
  have m: "minus_cell (cl k) (ce k)
      = (if oe \<and> ol then Some (recomputed_line_revenue fd k later
                                 - recomputed_line_revenue fd k earlier) else None)" for k
    by (simp add: ce_def cl_def)
  have C: "with_Change earlier later (reindex_columns [earlier, later] (unstack 0 S)) =
      Inr \<lparr>columns = [Q earlier, Q later, Change],
           rows = map (\<lambda>k. (k, [(Q earlier, ce k), (Q later, cl k),
                                 (Change, minus_cell (cl k) (ce k))])) idx\<rparr>"
    unfolding R using assms by (simp add: with_Change_def cell_def comp_def)
  show ?thesis
    unfolding service_line_quarterly_def S_def [symmetric] C idx_def [symmetric] m
    by (simp add: ce_def cl_def oe_def ol_def)
qed

text \<open>
  Claim C2 at a record set with no record in the later quarter: the later-quarter column
  of the service-line pivot is missing in every line, where the client pivot of the same
  records holds 0.
\<close>

theorem service_line_quarter_unfilled:
  "service_line_quarterly (2023, 4) (2024, 1)
     [qsale ''X'' ''a'' ''2023-11'' (2023, 4) 100, qsale ''Y'' ''b'' ''2023-12'' (2023, 4) 50]
     = Inr \<lparr>columns = [Q (2023, 4), Q (2024, 1), Change],
            rows = [(''a'', [(Q (2023, 4), Some 100), (Q (2024, 1), None), (Change, None)]),
                    (''b'', [(Q (2023, 4), Some 50), (Q (2024, 1), None), (Change, None)])]\<rparr>
   \<and> client_revenue (2023, 4) (2024, 1)
     [qsale ''X'' ''a'' ''2023-11'' (2023, 4) 100, qsale ''Y'' ''b'' ''2023-12'' (2023, 4) 50]
     = Inr \<lparr>columns = [Q (2023, 4), Q (2024, 1), Change],
            rows = [(''X'', [(Q (2023, 4), Some 100), (Q (2024, 1), Some 0), (Change, Some (- 100))]),
                    (''Y'', [(Q (2023, 4), Some 50), (Q (2024, 1), Some 0), (Change, Some (- 50))])]\<rparr>"
proof -
  let ?fd = "[qsale ''X'' ''a'' ''2023-11'' (2023, 4) 100, qsale ''Y'' ''b'' ''2023-12'' (2023, 4) 50]"
  have g: "groupby_sum (pair_key (service_lines \<circ> line) Quarter) (revenue \<circ> line) ?fd
      = [((''a'', (2023, 4)), 100), ((''b'', (2023, 4)), 50)]"
    by (simp add: groupby_sum_def group_keys_def List.map_filter_def pair_key_def nansum_def
        qsale_def sale_def)
  have u: "unstack 0 [((''a'', (2023, 4)), 100), ((''b'', (2023::nat, 4::nat)), 50)]
      = \<lparr>columns = [(2023, 4)],
         rows = [(''a'', [((2023, 4), Some 100)]), (''b'', [((2023, 4), Some 50)])]\<rparr>"
    by (simp add: unstack_def)
  have s: "service_line_quarterly (2023, 4) (2024, 1) ?fd
     = Inr \<lparr>columns = [Q (2023, 4), Q (2024, 1), Change],
            rows = [(''a'', [(Q (2023, 4), Some 100), (Q (2024, 1), None), (Change, None)]),
                    (''b'', [(Q (2023, 4), Some 50), (Q (2024, 1), None), (Change, None)])]\<rparr>"
    by (simp add: service_line_quarterly_def g u reindex_columns_def with_Change_def cell_def)
  have c: "client_revenue (2023, 4) (2024, 1) ?fd
     = Inr \<lparr>columns = [Q (2023, 4), Q (2024, 1), Change],
            rows = [(''X'', [(Q (2023, 4), Some 100), (Q (2024, 1), Some 0), (Change, Some (- 100))]),
                    (''Y'', [(Q (2023, 4), Some 50), (Q (2024, 1), Some 0), (Change, Some (- 50))])]\<rparr>"
    by (simp add: client_revenue_rows recomputed_revenue_def quarter_data_def groupby_sum_def
        group_keys_def List.map_filter_def nansum_def qsale_def sale_def)
  from s c show ?thesis by simp
qed

text \<open>
  Claim C3 at a record set with no record in the later quarter: the change of the service
  line is missing, where the records themselves give 0 - 100.
\<close>

theorem service_line_change_missing:
  "service_line_quarterly (2023, 4) (2024, 1) [qsale ''X'' ''a'' ''2023-11'' (2023, 4) 100]
     = Inr \<lparr>columns = [Q (2023, 4), Q (2024, 1), Change],
            rows = [(''a'', [(Q (2023, 4), Some 100), (Q (2024, 1), None), (Change, None)])]\<rparr>
   \<and> recomputed_line_revenue [qsale ''X'' ''a'' ''2023-11'' (2023, 4) 100] ''a'' (2024, 1)
       - recomputed_line_revenue [qsale ''X'' ''a'' ''2023-11'' (2023, 4) 100] ''a'' (2023, 4)
     = - 100"
proof -
  let ?fd = "[qsale ''X'' ''a'' ''2023-11'' (2023, 4) 100]"
  have g: "groupby_sum (pair_key (service_lines \<circ> line) Quarter) (revenue \<circ> line) ?fd
      = [((''a'', (2023, 4)), 100)]"
    by (simp add: groupby_sum_def group_keys_def List.map_filter_def pair_key_def nansum_def
        qsale_def sale_def)
  have u: "unstack 0 [((''a'', (2023::nat, 4::nat)), 100)]
      = \<lparr>columns = [(2023, 4)], rows = [(''a'', [((2023, 4), Some 100)])]\<rparr>"
    by (simp add: unstack_def)
  have s: "service_line_quarterly (2023, 4) (2024, 1) ?fd
     = Inr \<lparr>columns = [Q (2023, 4), Q (2024, 1), Change],
            rows = [(''a'', [(Q (2023, 4), Some 100), (Q (2024, 1), None), (Change, None)])]\<rparr>"
    by (simp add: service_line_quarterly_def g u reindex_columns_def with_Change_def cell_def)
  have r: "recomputed_line_revenue ?fd ''a'' (2024, 1) - recomputed_line_revenue ?fd ''a'' (2023, 4)
     = - 100"
    by (simp add: recomputed_line_revenue_def nansum_def qsale_def sale_def)
  from s r show ?thesis by simp
qed

section \<open>The ranking of the lost clients\<close>

text \<open>
  The script's two quarters differ, so the facts above for two different quarters cover
  it. The lost clients' \<^verbatim>\<open>'Change'\<close> column holds no NaN, hence line 82 is the ranking
  over a column of values.
\<close>

lemma quarters_distinct: "quarters = [(2023, 4), (2024, 1)] \<and> distinct quarters"
  by (simp add: quarters_def)

lemma lost_clients_rows:
  assumes "earlier \<noteq> later"
  shows "\<exists>ls. lost_clients earlier later fd = Inr ls
     \<and> (\<forall>row \<in> set ls. cell Change (snd row)
           = Some (recomputed_revenue fd (fst row) later - recomputed_revenue fd (fst row) earlier))"
  by (auto simp: lost_clients_def client_revenue_rows [OF assms] lost_rows_filter cell_def)

lemma nsmallest_cong:
  assumes "\<And>r. r \<in> set rs \<Longrightarrow> col r = col' r"
  shows "nsmallest n col rs = nsmallest n col' rs"
proof -
  have "List.map_filter (\<lambda>r. map_option (\<lambda>v. (v, r)) (col r)) rs
      = List.map_filter (\<lambda>r. map_option (\<lambda>v. (v, r)) (col' r)) rs"
    using assms by (induction rs) (auto simp: List.map_filter_simps split: option.splits)
  moreover have "filter (\<lambda>r. col r = None) rs = filter (\<lambda>r. col' r = None) rs"
    using assms by (auto intro: filter_cong)
  ultimately show ?thesis by (simp add: nsmallest_def)
qed

lemma top_lost_clients_ranked:
  assumes "earlier \<noteq> later"
  shows "\<exists>ls. lost_clients earlier later fd = Inr ls
     \<and> top_lost_clients earlier later fd
         = Inr (take 10 (sort_key
             (\<lambda>row. recomputed_revenue fd (fst row) later - recomputed_revenue fd (fst row) earlier)
             ls))"
proof -
  from lost_clients_rows [OF assms, of fd] obtain ls where
    ls: "lost_clients earlier later fd = Inr ls"
    and ch: "\<And>row. row \<in> set ls \<Longrightarrow> cell Change (snd row)
        = Some (recomputed_revenue fd (fst row) later - recomputed_revenue fd (fst row) earlier)"
    by blast
  have "nsmallest 10 (\<lambda>(k, cells). cell Change cells) ls
      = nsmallest 10 (\<lambda>row. Some (recomputed_revenue fd (fst row) later
                                   - recomputed_revenue fd (fst row) earlier)) ls"
    by (rule nsmallest_cong) (simp add: case_prod_unfold ch)
  then show ?thesis
    by (simp add: top_lost_clients_def ls nsmallest_total)
qed

end
